theory Spec2Isabelle
  imports Main
begin

section \<open>Strings and numbers of the content script\<close>

text \<open>
  The content script (\<^verbatim>\<open>chrome-extension/js/content.js\<close>) works on JavaScript strings.
  A string is modelled as a \<^typ>\<open>string\<close>: one \<^typ>\<open>char\<close> per UTF-16 code unit, for code
  units below 256. The numbers the script computes with are non-negative integers read
  from digit strings; they are modelled as \<^typ>\<open>nat\<close>. The script only compares such a
  number with a number below 10000, so the rounding of a very long digit string to a
  double does not change any outcome.
\<close>

subsection \<open>Display masking\<close>

text \<open>
  \<^verbatim>\<open>
  function maskSensitiveValue(fieldType, value) {
    const sensitiveFields = ['aadhaar_number', 'pan_number', 'voter_id_number'];
    if (sensitiveFields.includes(fieldType) && value.length > 4) {
      return 'X'.repeat(value.length - 4) + value.slice(-4);
    }
    return value;
  }
  \<close>
  \<open>value.slice(-4)\<close> is the substring from index \<open>max (length - 4) 0\<close> to the end.
\<close>

definition sensitiveFields :: "string list" where
  "sensitiveFields = [''aadhaar_number'', ''pan_number'', ''voter_id_number'']"

definition repeat :: "string \<Rightarrow> nat \<Rightarrow> string" where
  "repeat s n = concat (replicate n s)"

definition slice_from_end :: "string \<Rightarrow> nat \<Rightarrow> string" where
  "slice_from_end s k = drop (length s - k) s"

definition maskSensitiveValue :: "string \<Rightarrow> string \<Rightarrow> string" where
  "maskSensitiveValue fieldType v =
     (if List.member sensitiveFields fieldType \<and> length v > 4
      then repeat ''X'' (length v - 4) @ slice_from_end v 4
      else v)"

subsection \<open>Anchored regular expressions\<close>

text \<open>
  The three regular expressions of \<open>parseDate\<close> are anchored at both ends and are
  sequences of character classes with a bounded repetition, some of them capturing:
  \<^verbatim>\<open>/^(\d{4})$/\<close>, \<^verbatim>\<open>/^(\d{1,2})[\/\-\.](\d{1,2})[\/\-\.](\d{4})$/\<close> and
  \<^verbatim>\<open>/^(\d{4})[\/\-\.](\d{1,2})[\/\-\.](\d{1,2})$/\<close>.
  \<open>Rep X lo hi\<close> stands for \<open>X{lo,hi}\<close> and \<open>Group X lo hi\<close> for \<open>(X{lo,hi})\<close>.
  The matcher is the backtracking one of JavaScript: a repetition is greedy, it takes
  the longest run first and gives characters back while the rest does not match.
\<close>

definition is_digit :: "char \<Rightarrow> bool" where
  "is_digit c = List.member ''0123456789'' c"

definition is_sep :: "char \<Rightarrow> bool" where
  "is_sep c = List.member ''/-.'' c"

datatype atom = Rep "char \<Rightarrow> bool" nat nat | Group "char \<Rightarrow> bool" nat nat

fun first_some :: "'a option list \<Rightarrow> 'a option" where
  "first_some [] = None"
| "first_some (Some x # _) = Some x"
| "first_some (None # xs) = first_some xs"

fun rx_groups :: "atom list \<Rightarrow> string \<Rightarrow> string list option" where
  "rx_groups [] s = (if s = [] then Some [] else None)"
| "rx_groups (Rep cls lo hi # r) s =
     first_some (map (\<lambda>k. if k \<le> length s \<and> list_all cls (take k s)
                          then rx_groups r (drop k s)
                          else None)
                     (rev [lo..<Suc hi]))"
| "rx_groups (Group cls lo hi # r) s =
     first_some (map (\<lambda>k. if k \<le> length s \<and> list_all cls (take k s)
                          then map_option ((#) (take k s)) (rx_groups r (drop k s))
                          else None)
                     (rev [lo..<Suc hi]))"

text \<open>
  \<open>str.match(re)\<close> without the global flag returns null, or the array of the whole match
  followed by the captured groups: \<open>m ! 0\<close> is the match, \<open>m ! 1\<close> the first group.
\<close>

definition js_match :: "string \<Rightarrow> atom list \<Rightarrow> string list option" where
  "js_match s re = map_option ((#) s) (rx_groups re s)"

definition re_yearOnly :: "atom list" where
  "re_yearOnly = [Group is_digit 4 4]"

definition re_dmy :: "atom list" where
  "re_dmy = [Group is_digit 1 2, Rep is_sep 1 1, Group is_digit 1 2, Rep is_sep 1 1,
             Group is_digit 4 4]"

definition re_iso :: "atom list" where
  "re_iso = [Group is_digit 4 4, Rep is_sep 1 1, Group is_digit 1 2, Rep is_sep 1 1,
             Group is_digit 1 2]"

subsection \<open>Date normalizer: parsing\<close>

text \<open>
  \<open>parseInt\<close> applied to a captured group of decimal digits reads the decimal number
  (leading zeros allowed, no octal).
\<close>

definition digit_val :: "char \<Rightarrow> nat" where
  "digit_val c = of_char c - 48"

definition parseInt_digits :: "string \<Rightarrow> nat" where
  "parseInt_digits s = foldl (\<lambda>n c. 10 * n + digit_val c) 0 s"

text \<open>
  The object \<open>parseDate\<close> returns. The property \<open>yearOnly\<close> is set (to true) on the
  year-only path alone; on the two other paths the object has no such property, which is
  \<open>None\<close> here.
\<close>

record canonical_date =
  day :: nat
  month :: nat
  year :: nat
  yearOnly :: "bool option"

text \<open>
  \<^verbatim>\<open>
  function parseDate(dateStr) {
    if (!dateStr) return null;
    const yearOnlyMatch = dateStr.match(/^(\d{4})$/);
    if (yearOnlyMatch) {
      return { day: 1, month: 1, year: parseInt(yearOnlyMatch[1]), yearOnly: true };
    }
    const match = dateStr.match(/^(\d{1,2})[\/\-\.](\d{1,2})[\/\-\.](\d{4})$/);
    if (match) {
      const first = parseInt(match[1]);
      const second = parseInt(match[2]);
      const year = parseInt(match[3]);
      let day, month;
      if (second <= 12) { day = first; month = second; }
      else if (first <= 12) { month = first; day = second; }
      else { day = first; month = Math.min(second, 12); }
      return { day, month, year };
    }
    const isoMatch = dateStr.match(/^(\d{4})[\/\-\.](\d{1,2})[\/\-\.](\d{1,2})$/);
    if (isoMatch) {
      return { day: parseInt(isoMatch[3]), month: parseInt(isoMatch[2]),
               year: parseInt(isoMatch[1]) };
    }
    return null;
  }
  \<close>
  The result \<open>None\<close> is JavaScript's null. On a string argument no step of the function
  throws.
\<close>

definition parseDate :: "string \<Rightarrow> canonical_date option" where
  "parseDate dateStr =
     (if dateStr = [] then None
      else case js_match dateStr re_yearOnly of
        Some yearOnlyMatch \<Rightarrow>
          Some \<lparr>day = 1, month = 1, year = parseInt_digits (yearOnlyMatch ! 1),
                yearOnly = Some True\<rparr>
      | None \<Rightarrow>
         (case js_match dateStr re_dmy of
            Some m \<Rightarrow>
              (let first = parseInt_digits (m ! 1);
                   second = parseInt_digits (m ! 2);
                   yr = parseInt_digits (m ! 3)
               in if second \<le> 12
                  then Some \<lparr>day = first, month = second, year = yr, yearOnly = None\<rparr>
                  else if first \<le> 12
                  then Some \<lparr>day = second, month = first, year = yr, yearOnly = None\<rparr>
                  else Some \<lparr>day = first, month = min second 12, year = yr,
                             yearOnly = None\<rparr>)
          | None \<Rightarrow>
             (case js_match dateStr re_iso of
                Some isoMatch \<Rightarrow>
                  Some \<lparr>day = parseInt_digits (isoMatch ! 3),
                        month = parseInt_digits (isoMatch ! 2),
                        year = parseInt_digits (isoMatch ! 1), yearOnly = None\<rparr>
              | None \<Rightarrow> None)))"

subsection \<open>Date normalizer: formatting\<close>

text \<open>
  \<open>String(n)\<close> of a non-negative integer is its decimal numeral, and
  \<open>s.padStart(n, '0')\<close> puts zeros in front of a string shorter than \<open>n\<close>.
\<close>

definition digit_char :: "nat \<Rightarrow> char" where
  "digit_char d = ''0123456789'' ! d"

function String_nat :: "nat \<Rightarrow> string" where
  "String_nat n = (if n < 10 then [digit_char n]
                   else String_nat (n div 10) @ [digit_char (n mod 10)])"
  by pat_completeness auto
termination
  by (relation "measure id") auto

declare String_nat.simps [simp del]

definition padStart :: "string \<Rightarrow> nat \<Rightarrow> char \<Rightarrow> string" where
  "padStart s n c = replicate (n - length s) c @ s"

definition monthNames :: "string list" where
  "monthNames = [''Jan'', ''Feb'', ''Mar'', ''Apr'', ''May'', ''Jun'',
                 ''Jul'', ''Aug'', ''Sep'', ''Oct'', ''Nov'', ''Dec'']"

text \<open>
  \<^verbatim>\<open>
  function formatDateToExpected(dateObj, format) {
    const monthNames = ['Jan', ..., 'Dec'];
    const day = String(dateObj.day).padStart(2, '0');
    const month = String(dateObj.month).padStart(2, '0');
    const year = dateObj.year;
    const monthName = monthNames[dateObj.month - 1];
    switch (format) {
      case 'DD-Mon-YYYY': return `${day}-${monthName}-${year}`;
      case 'DD/MM/YYYY':  return `${day}/${month}/${year}`;
      case 'DD-MM-YYYY':  return `${day}-${month}-${year}`;
      case 'MM/DD/YYYY':  return `${month}/${day}/${year}`;
      case 'YYYY-MM-DD':  return `${year}-${month}-${day}`;
      default:            return `${day}/${month}/${year}`;
    }
  }
  \<close>
  An index outside the month table reads \<open>undefined\<close>, which the template literal prints
  as the word \<open>undefined\<close>.
\<close>

definition formatDateToExpected :: "canonical_date \<Rightarrow> string \<Rightarrow> string" where
  "formatDateToExpected dateObj fmt =
     (let d = padStart (String_nat (day dateObj)) 2 CHR ''0'';
          m = padStart (String_nat (month dateObj)) 2 CHR ''0'';
          y = String_nat (year dateObj);
          monthName = (if 1 \<le> month dateObj \<and> month dateObj \<le> 12
                       then monthNames ! (month dateObj - 1) else ''undefined'')
      in if fmt = ''DD-Mon-YYYY'' then d @ ''-'' @ monthName @ ''-'' @ y
         else if fmt = ''DD/MM/YYYY'' then d @ ''/'' @ m @ ''/'' @ y
         else if fmt = ''DD-MM-YYYY'' then d @ ''-'' @ m @ ''-'' @ y
         else if fmt = ''MM/DD/YYYY'' then m @ ''/'' @ d @ ''/'' @ y
         else if fmt = ''YYYY-MM-DD'' then y @ ''-'' @ m @ ''-'' @ d
         else d @ ''/'' @ m @ ''/'' @ y)"

subsection \<open>The three shapes of a date string\<close>

text \<open>
  What it means for a string to have one of the three recognised shapes, stated on the
  string itself: a bare four-digit year, \<open>D[/-.]M[/-.]YYYY\<close> with one or two digits in
  each of the first two groups, and \<open>YYYY[/-.]M[/-.]D\<close>.
\<close>

definition digit_group :: "nat \<Rightarrow> nat \<Rightarrow> string \<Rightarrow> bool" where
  "digit_group lo hi g = (lo \<le> length g \<and> length g \<le> hi \<and> list_all is_digit g)"

definition shape_year :: "string \<Rightarrow> bool" where
  "shape_year s = digit_group 4 4 s"

definition shape_dmy :: "string \<Rightarrow> bool" where
  "shape_dmy s = (\<exists>a p b q y. s = a @ p # b @ q # y \<and> digit_group 1 2 a \<and> is_sep p
                    \<and> digit_group 1 2 b \<and> is_sep q \<and> digit_group 4 4 y)"

definition shape_iso :: "string \<Rightarrow> bool" where
  "shape_iso s = (\<exists>y p a q b. s = y @ p # a @ q # b \<and> digit_group 4 4 y \<and> is_sep p
                    \<and> digit_group 1 2 a \<and> is_sep q \<and> digit_group 1 2 b)"

text \<open>
  A valid canonical date of the specification's data model: day 1 to 31, month 1 to 12
  and a four-digit year.
\<close>

definition valid_date :: "canonical_date \<Rightarrow> bool" where
  "valid_date d = (1 \<le> day d \<and> day d \<le> 31 \<and> 1 \<le> month d \<and> month d \<le> 12
                    \<and> 1000 \<le> year d \<and> year d \<le> 9999)"

subsection \<open>String methods\<close>

text \<open>
  \<open>s.toLowerCase()\<close> on code units below 256 changes the letters \<open>A\<close> to \<open>Z\<close> and the
  Latin-1 capitals U+00C0 to U+00DE (U+00D7, the multiplication sign, apart).
  \<open>s.trim()\<close> removes white space and line terminators at both ends; below 256 these are
  the code units 9 to 13, 32 and 160. \<open>s.includes(p)\<close> holds when \<open>p\<close> occurs in \<open>s\<close> at
  some position, so the empty string is included in every string.
\<close>

definition lower_char :: "char \<Rightarrow> char" where
  "lower_char c =
     (let n = (of_char c :: nat)
      in if (65 \<le> n \<and> n \<le> 90) \<or> (192 \<le> n \<and> n \<le> 222 \<and> n \<noteq> 215)
         then char_of (n + 32) else c)"

definition toLowerCase :: "string \<Rightarrow> string" where
  "toLowerCase s = map lower_char s"

definition is_space :: "char \<Rightarrow> bool" where
  "is_space c = List.member [9, 10, 11, 12, 13, 32, 160 :: nat] (of_char c)"

definition trim :: "string \<Rightarrow> string" where
  "trim s = rev (dropWhile is_space (rev (dropWhile is_space s)))"

definition js_includes :: "string \<Rightarrow> string \<Rightarrow> bool" where
  "js_includes s p = list_ex (\<lambda>i. take (length p) (drop i s) = p) [0..<Suc (length s)]"

text \<open>\<open>a || b\<close> on strings: the empty string is the only falsy one.\<close>

definition or_else :: "string \<Rightarrow> string \<Rightarrow> string" where
  "or_else a b = (if a \<noteq> [] then a else b)"

subsection \<open>Controls of the page\<close>

text \<open>
  A control as the script sees it: the properties and attributes it reads, the part of
  the page around the control that \<open>getFieldLabel\<close> looks at, and what the script changes
  (the value, the checked state, and the events dispatched on the control, in order).
  \<open>ariaLabel\<close> is \<open>getAttribute('aria-label')\<close>, \<open>None\<close> when the attribute is absent.
  \<open>labelFor\<close> is what \<open>document.querySelector('label[for="<id>"]')\<close> does for the id of
  the control: it throws a SyntaxError when the id makes the selector malformed, finds no
  element, or finds a label with the given text content. \<open>closestLabel\<close> is the text
  content of the enclosing label, if any, and \<open>previousElementSibling\<close> the tag name and
  text content of the preceding sibling element, if any.
  Writing \<open>element.value\<close> is modelled as storing the string written; what the browser
  makes of a string that the control does not accept is outside the script.
\<close>

record option_el =
  opt_value :: string
  opt_text :: string

datatype dom_event = Event string bool

datatype dom_error = SyntaxError

record element =
  tagName :: string
  el_type :: string
  el_name :: string
  el_id :: string
  placeholder :: string
  ariaLabel :: "string option"
  el_value :: string
  checked :: bool
  options :: "option_el list"
  labelFor :: "dom_error + string option"
  closestLabel :: "string option"
  previousElementSibling :: "(string \<times> string) option"
  events :: "dom_event list"

definition dispatchEvent :: "dom_event \<Rightarrow> element \<Rightarrow> element" where
  "dispatchEvent ev el = el\<lparr>events := events el @ [ev]\<rparr>"

subsection \<open>Field classifier\<close>

text \<open>
  The pattern table, in the order of its keys (\<open>Object.entries\<close> follows insertion order).
\<close>

definition FIELD_MAPPING :: "(string \<times> string list) list" where
  "FIELD_MAPPING =
    [(''name'', [''name'', ''full_name'', ''fullname'', ''applicant_name'', ''applicantname'']),
     (''full_name'', [''name'', ''full_name'', ''fullname'', ''applicant_name'']),
     (''father_name'', [''father_name'', ''fathername'', ''father'', ''guardian_name'',
                        ''father_husband'']),
     (''aadhaar_number'', [''aadhaar'', ''aadhar'', ''aadhaar_no'', ''uid'', ''uidai'']),
     (''pan_number'', [''pan'', ''pan_no'', ''pancard'', ''pan_number'']),
     (''voter_id_number'', [''voter_id'', ''voterid'', ''epic'', ''epic_no'']),
     (''date_of_birth'', [''dob'', ''date_of_birth'', ''dateofbirth'', ''birth_date'',
                          ''birthdate'']),
     (''gender'', [''gender'', ''sex'']),
     (''address'', [''address'', ''full_address'', ''residential_address'',
                    ''permanent_address'']),
     (''mobile_number'', [''mobile'', ''mobile_no'', ''mobile_number'', ''phone'', ''phone_no'',
                          ''phone_number'', ''contact'', ''contact_no'', ''cell'']),
     (''email'', [''email'', ''email_id'', ''emailid'', ''mail'', ''mail_id'', ''email_address'']),
     (''community'', [''community'', ''caste'', ''category'']),
     (''annual_income'', [''income'', ''annual_income'', ''yearly_income''])]"

text \<open>
  \<^verbatim>\<open>
  function getFieldLabel(input) {
    if (input.id) {
      const label = document.querySelector(`label[for="${input.id}"]`);
      if (label) return label.textContent.trim();
    }
    const parentLabel = input.closest('label');
    if (parentLabel) return parentLabel.textContent.trim();
    const prev = input.previousElementSibling;
    if (prev && (prev.tagName === 'LABEL' || prev.tagName === 'SPAN')) {
      return prev.textContent.trim();
    }
    return '';
  }
  \<close>
\<close>

definition label_around :: "element \<Rightarrow> string" where
  "label_around input =
     (case closestLabel input of
        Some t \<Rightarrow> trim t
      | None \<Rightarrow>
         (case previousElementSibling input of
            Some (tag, t) \<Rightarrow> if tag = ''LABEL'' \<or> tag = ''SPAN'' then trim t else ''''
          | None \<Rightarrow> ''''))"

definition getFieldLabel :: "element \<Rightarrow> dom_error + string" where
  "getFieldLabel input =
     (if el_id input \<noteq> []
      then (case labelFor input of
              Inl e \<Rightarrow> Inl e
            | Inr (Some t) \<Rightarrow> Inr (trim t)
            | Inr None \<Rightarrow> Inr (label_around input))
      else Inr (label_around input))"

text \<open>
  \<^verbatim>\<open>
  function identifyField(input) {
    if (input.type === 'hidden' || input.type === 'submit' || input.type === 'button') {
      return null;
    }
    const name = (input.name || '').toLowerCase();
    const id = (input.id || '').toLowerCase();
    const placeholder = (input.placeholder || '').toLowerCase();
    const label = getFieldLabel(input).toLowerCase();
    const ariaLabel = (input.getAttribute('aria-label') || '').toLowerCase();
    const identifiers = [name, id, placeholder, label, ariaLabel].filter(Boolean);
    for (const [fieldType, patterns] of Object.entries(FIELD_MAPPING)) {
      for (const pattern of patterns) {
        for (const identifier of identifiers) {
          if (identifier.includes(pattern) || pattern.includes(identifier)) {
            return { fieldType, identifier: name || id,
                     label: label || placeholder || name || id };
          }
        }
      }
    }
    return null;
  }
  \<close>
  The three nested loops are three recursive functions; each stops at the first match.
\<close>

record field_info =
  fieldType :: string
  field_identifier :: string
  field_label :: string

fun match_identifiers :: "string \<Rightarrow> string list \<Rightarrow> bool" where
  "match_identifiers pattern [] = False"
| "match_identifiers pattern (ident # identifiers) =
     (if js_includes ident pattern \<or> js_includes pattern ident then True
      else match_identifiers pattern identifiers)"

fun match_patterns :: "string list \<Rightarrow> string list \<Rightarrow> bool" where
  "match_patterns [] identifiers = False"
| "match_patterns (pattern # patterns) identifiers =
     (if match_identifiers pattern identifiers then True
      else match_patterns patterns identifiers)"

fun match_entries :: "(string \<times> string list) list \<Rightarrow> string list \<Rightarrow> string option" where
  "match_entries [] identifiers = None"
| "match_entries ((ft, patterns) # entries) identifiers =
     (if match_patterns patterns identifiers then Some ft
      else match_entries entries identifiers)"

definition identifyField :: "element \<Rightarrow> dom_error + field_info option" where
  "identifyField input =
     (if el_type input = ''hidden'' \<or> el_type input = ''submit'' \<or> el_type input = ''button''
      then Inr None
      else case getFieldLabel input of
        Inl e \<Rightarrow> Inl e
      | Inr lbl \<Rightarrow>
         (let name = toLowerCase (el_name input);
              id = toLowerCase (el_id input);
              ph = toLowerCase (placeholder input);
              label = toLowerCase lbl;
              aria = toLowerCase (case ariaLabel input of None \<Rightarrow> '''' | Some a \<Rightarrow> a);
              identifiers = filter (\<lambda>s. s \<noteq> []) [name, id, ph, label, aria]
          in case match_entries FIELD_MAPPING identifiers of
               Some ft \<Rightarrow>
                 Inr (Some \<lparr>fieldType = ft, field_identifier = or_else name id,
                             field_label = or_else label (or_else ph (or_else name id))\<rparr>)
             | None \<Rightarrow> Inr None))"

text \<open>
  The closed vocabulary of semantic field types of the specification (section 6).
\<close>

definition semantic_field_types :: "string list" where
  "semantic_field_types =
    [''full_name'', ''full_name_regional'', ''father_name'', ''aadhaar_number'', ''pan_number'',
     ''voter_id_number'', ''driving_license_number'', ''date_of_birth'', ''gender'', ''address'',
     ''mobile_number'', ''email'', ''community'', ''annual_income'', ''blood_group'']"

subsection \<open>Select purpose resolver\<close>

text \<open>
  \<^verbatim>\<open>
  function detectSelectPurpose(element, options) {
    const name = (element.name || '').toLowerCase();
    const id = (element.id || '').toLowerCase();
    if (name.includes('day') || id.includes('day') || name.includes('dd')) return 'day';
    if (name.includes('month') || id.includes('month') || name.includes('mm')) return 'month';
    if (name.includes('year') || id.includes('year') || name.includes('yyyy')
        || name.includes('yy')) return 'year';
    const values = options.map(o => o.value || o.text);
    const hasMonthNames =
      values.some(v => /^(jan|feb|mar|apr|may|jun|jul|aug|sep|oct|nov|dec)/i.test(v));
    if (hasMonthNames) return 'month';
    const numericValues = values.filter(v => /^\d+$/.test(v)).map(v => parseInt(v));
    if (numericValues.length > 0) {
      const max = Math.max(...numericValues);
      if (max <= 31 && max >= 28) return 'day';
      if (max === 12 || max <= 12 && numericValues.length <= 13) return 'month';
      if (max > 1900) return 'year';
    }
    return null;
  }
  \<close>
  The regular expression with the flag \<open>i\<close> tests whether the string starts with one of
  the twelve abbreviations, in either case of each letter. \<open>Math.max\<close> of a non-empty
  list of non-negative numbers is the fold of \<open>max\<close> from 0.
\<close>

definition month_abbreviations :: "string list" where
  "month_abbreviations = [''jan'', ''feb'', ''mar'', ''apr'', ''may'', ''jun'',
                          ''jul'', ''aug'', ''sep'', ''oct'', ''nov'', ''dec'']"

definition starts_with_month :: "string \<Rightarrow> bool" where
  "starts_with_month v =
     list_ex (\<lambda>m. toLowerCase (take (length m) v) = m) month_abbreviations"

definition all_digits :: "string \<Rightarrow> bool" where
  "all_digits v = (v \<noteq> [] \<and> list_all is_digit v)"

definition detectSelectPurpose :: "element \<Rightarrow> option_el list \<Rightarrow> string option" where
  "detectSelectPurpose el opts =
     (let name = toLowerCase (el_name el);
          id = toLowerCase (el_id el)
      in if js_includes name ''day'' \<or> js_includes id ''day'' \<or> js_includes name ''dd''
         then Some ''day''
         else if js_includes name ''month'' \<or> js_includes id ''month'' \<or> js_includes name ''mm''
         then Some ''month''
         else if js_includes name ''year'' \<or> js_includes id ''year'' \<or> js_includes name ''yyyy''
                 \<or> js_includes name ''yy''
         then Some ''year''
         else
          (let values = map (\<lambda>opt. or_else (opt_value opt) (opt_text opt)) opts;
               hasMonthNames = list_ex starts_with_month values
           in if hasMonthNames then Some ''month''
              else
               (let numericValues = map parseInt_digits (filter all_digits values)
                in if length numericValues > 0
                   then (let mx = fold max numericValues 0
                         in if mx \<le> 31 \<and> mx \<ge> 28 then Some ''day''
                            else if mx = 12 \<or> mx \<le> 12 \<and> length numericValues \<le> 13
                            then Some ''month''
                            else if mx > 1900 then Some ''year''
                            else None)
                   else None)))"

text \<open>
  The resolver as the specification words it: every hint is looked for in the name and in
  the id; then an option whose text starts with a month abbreviation makes it a month
  select; then the maximum of the purely numeric option values decides, a maximum of at
  most 12 meaning month only with at most 13 numeric options.
\<close>

definition spec_resolvePurpose :: "element \<Rightarrow> option_el list \<Rightarrow> string option" where
  "spec_resolvePurpose el opts =
     (let name = toLowerCase (el_name el);
          id = toLowerCase (el_id el);
          hint = (\<lambda>h. js_includes name h \<or> js_includes id h)
      in if hint ''day'' \<or> hint ''dd'' then Some ''day''
         else if hint ''month'' \<or> hint ''mm'' then Some ''month''
         else if hint ''year'' \<or> hint ''yyyy'' \<or> hint ''yy'' then Some ''year''
         else if list_ex (\<lambda>opt. starts_with_month (opt_text opt)) opts then Some ''month''
         else
          (let numericValues = map parseInt_digits (filter all_digits (map opt_value opts))
           in if numericValues = [] then None
              else (let mx = fold max numericValues 0
                    in if 28 \<le> mx \<and> mx \<le> 31 then Some ''day''
                       else if mx \<le> 12 \<and> length numericValues \<le> 13 then Some ''month''
                       else if mx > 1900 then Some ''year''
                       else None)))"

text \<open>
  That a string occurs in another one, stated without a position.
\<close>

definition occurs_in :: "string \<Rightarrow> string \<Rightarrow> bool" where
  "occurs_in p s = (\<exists>u w. s = u @ p @ w)"

subsection \<open>Value writer\<close>

text \<open>
  \<open>parseInt(s)\<close> on an arbitrary string: leading white space is skipped, then an optional
  sign, then the prefix \<open>0x\<close> or \<open>0X\<close> selects radix 16; the longest run of digits of the
  radix is read, and the result is NaN (\<open>None\<close>) when that run is empty.
\<close>

definition hex_val :: "char \<Rightarrow> nat option" where
  "hex_val c =
     (let n = (of_char c :: nat)
      in if 48 \<le> n \<and> n \<le> 57 then Some (n - 48)
         else if 97 \<le> n \<and> n \<le> 102 then Some (n - 87)
         else if 65 \<le> n \<and> n \<le> 70 then Some (n - 55)
         else None)"

definition parseInt :: "string \<Rightarrow> int option" where
  "parseInt s =
     (let t = dropWhile is_space s;
          neg = (take 1 t = ''-'');
          u = (if take 1 t = ''-'' \<or> take 1 t = ''+'' then drop 1 t else t);
          hex = (take 2 u = ''0x'' \<or> take 2 u = ''0X'');
          ds = (if hex then takeWhile (\<lambda>c. hex_val c \<noteq> None) (drop 2 u)
                else takeWhile is_digit u);
          n = (if hex
               then foldl (\<lambda>a c. case hex_val c of Some d \<Rightarrow> 16 * a + d | None \<Rightarrow> a) 0 ds
               else parseInt_digits ds)
      in if ds = [] then None
         else Some (if neg then - int n else int n))"

text \<open>
  \<^verbatim>\<open>
  function isDateField(element) {
    const name = (element.name || '').toLowerCase();
    const id = (element.id || '').toLowerCase();
    const placeholder = (element.placeholder || '').toLowerCase();
    return name.includes('date') || name.includes('dob') ||
           id.includes('date') || id.includes('dob') ||
           placeholder.includes('date') || placeholder.includes('dd');
  }
  function isDateRelatedSelect(element) {
    const name = (element.name || '').toLowerCase();
    const id = (element.id || '').toLowerCase();
    return name.includes('day') || name.includes('month') || name.includes('year') ||
           name.includes('date') || name.includes('dob') ||
           id.includes('day') || id.includes('month') || id.includes('year') ||
           id.includes('date') || id.includes('dob');
  }
  \<close>
\<close>

definition isDateField :: "element \<Rightarrow> bool" where
  "isDateField el =
     (let name = toLowerCase (el_name el);
          id = toLowerCase (el_id el);
          ph = toLowerCase (placeholder el)
      in js_includes name ''date'' \<or> js_includes name ''dob'' \<or>
         js_includes id ''date'' \<or> js_includes id ''dob'' \<or>
         js_includes ph ''date'' \<or> js_includes ph ''dd'')"

definition isDateRelatedSelect :: "element \<Rightarrow> bool" where
  "isDateRelatedSelect el =
     (let name = toLowerCase (el_name el);
          id = toLowerCase (el_id el)
      in js_includes name ''day'' \<or> js_includes name ''month'' \<or> js_includes name ''year'' \<or>
         js_includes name ''date'' \<or> js_includes name ''dob'' \<or>
         js_includes id ''day'' \<or> js_includes id ''month'' \<or> js_includes id ''year'' \<or>
         js_includes id ''date'' \<or> js_includes id ''dob'')"

text \<open>
  \<^verbatim>\<open>
  function detectDateFormat(element) {
    const placeholder = (element.placeholder || '').toLowerCase();
    const pattern = element.getAttribute('pattern') || '';
    if (placeholder.includes('dd-mmm-yyyy') || placeholder.includes('dd-mon-yyyy'))
      return 'DD-Mon-YYYY';
    if (placeholder.includes('dd/mm/yyyy')) return 'DD/MM/YYYY';
    if (placeholder.includes('dd-mm-yyyy')) return 'DD-MM-YYYY';
    if (placeholder.includes('mm/dd/yyyy')) return 'MM/DD/YYYY';
    if (placeholder.includes('yyyy-mm-dd')) return 'YYYY-MM-DD';
    return 'DD/MM/YYYY';
  }
  \<close>
  The constant \<open>pattern\<close> is read and never used.
\<close>

definition detectDateFormat :: "element \<Rightarrow> string" where
  "detectDateFormat el =
     (let ph = toLowerCase (placeholder el)
      in if js_includes ph ''dd-mmm-yyyy'' \<or> js_includes ph ''dd-mon-yyyy'' then ''DD-Mon-YYYY''
         else if js_includes ph ''dd/mm/yyyy'' then ''DD/MM/YYYY''
         else if js_includes ph ''dd-mm-yyyy'' then ''DD-MM-YYYY''
         else if js_includes ph ''mm/dd/yyyy'' then ''MM/DD/YYYY''
         else if js_includes ph ''yyyy-mm-dd'' then ''YYYY-MM-DD''
         else ''DD/MM/YYYY'')"

text \<open>
  \<^verbatim>\<open>
  function fillField(element, value, fieldType = null) {
    if (element.tagName === 'SELECT') {
      const options = Array.from(element.options);
      if (fieldType === 'date_of_birth' || isDateRelatedSelect(element)) {
        const dateVal = parseDate(value);
        if (dateVal) {
          const selectPurpose = detectSelectPurpose(element, options);
          if (selectPurpose === 'day') {
            const dayMatch = options.find(opt => parseInt(opt.value) === dateVal.day
                                              || parseInt(opt.text) === dateVal.day);
            if (dayMatch) element.value = dayMatch.value;
          } else if (selectPurpose === 'month') {
            const monthNames = ['jan', ..., 'dec'];
            const monthMatch = options.find(opt => {
              const val = opt.value.toLowerCase();
              const txt = opt.text.toLowerCase();
              return parseInt(opt.value) === dateVal.month ||
                     parseInt(opt.text) === dateVal.month ||
                     val.includes(monthNames[dateVal.month - 1]) ||
                     txt.includes(monthNames[dateVal.month - 1]);
            });
            if (monthMatch) element.value = monthMatch.value;
          } else if (selectPurpose === 'year') {
            const yearMatch = options.find(opt => parseInt(opt.value) === dateVal.year
                                               || parseInt(opt.text) === dateVal.year);
            if (yearMatch) element.value = yearMatch.value;
          } else {
            const match = options.find(opt =>
              opt.value.toLowerCase() === value.toLowerCase() ||
              opt.text.toLowerCase() === value.toLowerCase());
            if (match) element.value = match.value;
          }
          element.dispatchEvent(new Event('change', { bubbles: true }));
          return;
        }
      }
      const match = options.find(opt =>
        opt.value.toLowerCase() === value.toLowerCase() ||
        opt.text.toLowerCase() === value.toLowerCase());
      if (match) { element.value = match.value; }
    } else if (element.type === 'radio' || element.type === 'checkbox') {
      if (element.value.toLowerCase() === value.toLowerCase()) { element.checked = true; }
    } else if (element.type === 'date') {
      const dateVal = parseDate(value);
      if (dateVal) {
        const formatted = `${dateVal.year}-${String(dateVal.month).padStart(2, '0')}-${
                            String(dateVal.day).padStart(2, '0')}`;
        element.value = formatted;
      } else { element.value = value; }
    } else {
      if (fieldType === 'date_of_birth' || isDateField(element)) {
        const dateVal = parseDate(value);
        if (dateVal) {
          const expectedFormat = detectDateFormat(element);
          element.value = formatDateToExpected(dateVal, expectedFormat);
        } else { element.value = value; }
      } else { element.value = value; }
    }
    element.dispatchEvent(new Event('input', { bubbles: true }));
    element.dispatchEvent(new Event('change', { bubbles: true }));
  }
  \<close>
  The function returns nothing; its effect is the control after the call:
  \<open>fill_date_select\<close> is the block that ends with the early return, \<open>standard\<close> the
  plain option match, and \<open>finish\<close> the two dispatches at the end. An absent
  \<open>fieldType\<close> argument (null by default) is \<open>None\<close>. A month outside 1 to 12 reads
  \<open>undefined\<close> from the month table, which \<open>includes\<close> turns into the word \<open>undefined\<close>.
\<close>

definition select_option :: "(option_el \<Rightarrow> bool) \<Rightarrow> element \<Rightarrow> element" where
  "select_option P el =
     (case find P (options el) of
        Some m \<Rightarrow> el\<lparr>el_value := opt_value m\<rparr>
      | None \<Rightarrow> el)"

definition same_text :: "string \<Rightarrow> option_el \<Rightarrow> bool" where
  "same_text v opt = (toLowerCase (opt_value opt) = toLowerCase v
                       \<or> toLowerCase (opt_text opt) = toLowerCase v)"

definition same_number :: "nat \<Rightarrow> option_el \<Rightarrow> bool" where
  "same_number n opt = (parseInt (opt_value opt) = Some (int n)
                         \<or> parseInt (opt_text opt) = Some (int n))"

definition same_month :: "nat \<Rightarrow> option_el \<Rightarrow> bool" where
  "same_month m opt =
     (let monthName = (if 1 \<le> m \<and> m \<le> 12 then month_abbreviations ! (m - 1)
                       else ''undefined'')
      in parseInt (opt_value opt) = Some (int m) \<or>
         parseInt (opt_text opt) = Some (int m) \<or>
         js_includes (toLowerCase (opt_value opt)) monthName \<or>
         js_includes (toLowerCase (opt_text opt)) monthName)"

definition fill_date_select :: "element \<Rightarrow> string \<Rightarrow> canonical_date \<Rightarrow> element" where
  "fill_date_select el v dateVal =
     (let selectPurpose = detectSelectPurpose el (options el);
          el' = (if selectPurpose = Some ''day'' then select_option (same_number (day dateVal)) el
                 else if selectPurpose = Some ''month''
                 then select_option (same_month (month dateVal)) el
                 else if selectPurpose = Some ''year''
                 then select_option (same_number (year dateVal)) el
                 else select_option (same_text v) el)
      in dispatchEvent (Event ''change'' True) el')"

definition fillField :: "element \<Rightarrow> string \<Rightarrow> string option \<Rightarrow> element" where
  "fillField el v ftype =
     (let finish = (\<lambda>e. dispatchEvent (Event ''change'' True)
                          (dispatchEvent (Event ''input'' True) e))
      in if tagName el = ''SELECT''
         then (let standard = finish (select_option (same_text v) el)
               in if ftype = Some ''date_of_birth'' \<or> isDateRelatedSelect el
                  then (case parseDate v of
                          Some dateVal \<Rightarrow> fill_date_select el v dateVal
                        | None \<Rightarrow> standard)
                  else standard)
         else if el_type el = ''radio'' \<or> el_type el = ''checkbox''
         then finish (if toLowerCase (el_value el) = toLowerCase v
                      then el\<lparr>checked := True\<rparr> else el)
         else if el_type el = ''date''
         then (case parseDate v of
                 Some dateVal \<Rightarrow>
                   finish (el\<lparr>el_value :=
                             String_nat (year dateVal) @ ''-''
                             @ padStart (String_nat (month dateVal)) 2 CHR ''0'' @ ''-''
                             @ padStart (String_nat (day dateVal)) 2 CHR ''0''\<rparr>)
               | None \<Rightarrow> finish (el\<lparr>el_value := v\<rparr>))
         else if ftype = Some ''date_of_birth'' \<or> isDateField el
         then (case parseDate v of
                 Some dateVal \<Rightarrow>
                   finish (el\<lparr>el_value := formatDateToExpected dateVal (detectDateFormat el)\<rparr>)
               | None \<Rightarrow> finish (el\<lparr>el_value := v\<rparr>))
         else finish (el\<lparr>el_value := v\<rparr>))"

section \<open>Properties\<close>

lemma repeat_X: "repeat ''X'' n = replicate n CHR ''X''"
  by (induction n) (simp_all add: repeat_def)

text \<open>
  Claim C6. For a field type of the sensitive subset (aadhaar_number, pan_number,
  voter_id_number) and any value, \<open>maskSensitiveValue\<close> returns the value with every
  character but the last four replaced by \<open>X\<close>; the result is as long as the value.
  In particular the PAN \<open>ABCDE1234F\<close> is shown as \<open>XXXXXX234F\<close>.
\<close>

theorem maskSensitiveValue_sensitive:
  assumes "ftype \<in> {''aadhaar_number'', ''pan_number'', ''voter_id_number''}"
  shows "maskSensitiveValue ftype v
           = replicate (length v - 4) CHR ''X'' @ drop (length v - 4) v
         \<and> length (maskSensitiveValue ftype v) = length v
         \<and> maskSensitiveValue ''pan_number'' ''ABCDE1234F'' = ''XXXXXX234F''"
proof -
  from assms have m: "List.member sensitiveFields ftype"
    by (auto simp: sensitiveFields_def)
  have eq: "maskSensitiveValue ftype v
           = replicate (length v - 4) CHR ''X'' @ drop (length v - 4) v"
    using m by (simp add: maskSensitiveValue_def repeat_X slice_from_end_def)
  have len: "length (maskSensitiveValue ftype v) = length v"
    by (simp add: eq)
  have pan: "maskSensitiveValue ''pan_number'' ''ABCDE1234F'' = ''XXXXXX234F''"
    by (simp add: maskSensitiveValue_def sensitiveFields_def repeat_def slice_from_end_def)
  from eq len pan show ?thesis by blast
qed

theorem maskSensitiveValue_sensitive_witness:
  "maskSensitiveValue ''aadhaar_number'' ''123456789012'' = ''XXXXXXXX9012''
   \<and> length (maskSensitiveValue ''aadhaar_number'' ''123456789012'') = 12"
  using maskSensitiveValue_sensitive [of "''aadhaar_number''" "''123456789012''"]
  by (simp add: numeral_eq_Suc)

text \<open>
  Claim C10. A value of at most four characters is returned unchanged even for a
  sensitive field type, and for a field type outside the sensitive subset the value is
  returned unchanged whatever its length.
\<close>

theorem maskSensitiveValue_unchanged:
  assumes "length v \<le> 4 \<or> ftype \<notin> {''aadhaar_number'', ''pan_number'', ''voter_id_number''}"
  shows "maskSensitiveValue ftype v = v"
  using assms by (auto simp: maskSensitiveValue_def sensitiveFields_def)

theorem maskSensitiveValue_unchanged_witness:
  "maskSensitiveValue ''pan_number'' ''234F'' = ''234F''
   \<and> maskSensitiveValue ''email'' ''someone@example.org'' = ''someone@example.org''"
proof -
  have short: "length ''234F'' \<le> 4
      \<or> ''pan_number'' \<notin> {''aadhaar_number'', ''pan_number'', ''voter_id_number''}"
    by simp
  have other: "length ''someone@example.org'' \<le> 4
      \<or> ''email'' \<notin> {''aadhaar_number'', ''pan_number'', ''voter_id_number''}"
    by simp
  show ?thesis
    using maskSensitiveValue_unchanged [OF short] maskSensitiveValue_unchanged [OF other]
    by simp
qed

subsection \<open>The regular-expression matcher\<close>

lemma first_some_map_SomeD:
  "first_some (map f ks) = Some x \<Longrightarrow> \<exists>k\<in>set ks. f k = Some x"
proof (induction ks)
  case Nil then show ?case by simp
next
  case (Cons k ks) then show ?case by (cases "f k") auto
qed

lemma first_some_map_None:
  "first_some (map f ks) = None \<longleftrightarrow> (\<forall>k\<in>set ks. f k = None)"
proof (induction ks)
  case Nil then show ?case by simp
next
  case (Cons k ks) then show ?case by (cases "f k") auto
qed

lemma first_some_skip:
  "\<forall>k\<in>set xs. f k = None \<Longrightarrow> first_some (map f (xs @ ys)) = first_some (map f ys)"
  by (induction xs) auto

lemma rx_Nil_SomeD: "rx_groups [] s = Some gs \<Longrightarrow> s = [] \<and> gs = []"
  by (auto split: if_splits)

lemma rx_Group_SomeD:
  assumes "rx_groups (Group cls lo hi # r) s = Some gs"
  shows "\<exists>g t gs'. s = g @ t \<and> lo \<le> length g \<and> length g \<le> hi \<and> list_all cls g
            \<and> rx_groups r t = Some gs' \<and> gs = g # gs'"
proof -
  let ?f = "\<lambda>k. if k \<le> length s \<and> list_all cls (take k s)
                 then map_option ((#) (take k s)) (rx_groups r (drop k s)) else None"
  from assms have "first_some (map ?f (rev [lo..<Suc hi])) = Some gs"
    by (simp only: rx_groups.simps)
  from first_some_map_SomeD [OF this]
  obtain k where k: "k \<in> set (rev [lo..<Suc hi])" and f: "?f k = Some gs"
    by blast
  from f have kl: "k \<le> length s" and c: "list_all cls (take k s)"
    and m: "map_option ((#) (take k s)) (rx_groups r (drop k s)) = Some gs"
    by (auto split: if_splits)
  from m obtain gs' where "rx_groups r (drop k s) = Some gs'" "gs = take k s # gs'"
    by auto
  moreover have "s = take k s @ drop k s" by simp
  moreover from k kl have "lo \<le> length (take k s)" "length (take k s) \<le> hi" by auto
  ultimately show ?thesis using c by blast
qed

lemma rx_Rep1_SomeD:
  assumes "rx_groups (Rep cls 1 1 # r) s = Some gs"
  shows "\<exists>p t. s = p # t \<and> cls p \<and> rx_groups r t = Some gs"
proof -
  let ?f = "\<lambda>k. if k \<le> length s \<and> list_all cls (take k s)
                 then rx_groups r (drop k s) else None"
  from assms have "first_some (map ?f (rev [1..<Suc 1])) = Some gs"
    by (simp only: rx_groups.simps)
  from first_some_map_SomeD [OF this]
  obtain k where "k \<in> set (rev [1..<Suc 1])" and fk: "?f k = Some gs"
    by blast
  then have "k = 1" by auto
  with fk have "1 \<le> length s \<and> list_all cls (take 1 s) \<and> rx_groups r (drop 1 s) = Some gs"
    by (auto split: if_splits)
  then show ?thesis by (cases s) auto
qed

lemma rx_Group_greedy:
  assumes g: "list_all cls g" and lo: "lo \<le> length g" and hi: "length g \<le> hi"
    and t: "case t of [] \<Rightarrow> True | c # _ \<Rightarrow> \<not> cls c"
    and r: "rx_groups r t = Some gs'"
  shows "rx_groups (Group cls lo hi # r) (g @ t) = Some (g # gs')"
proof -
  let ?f = "\<lambda>k. if k \<le> length (g @ t) \<and> list_all cls (take k (g @ t))
                 then map_option ((#) (take k (g @ t))) (rx_groups r (drop k (g @ t)))
                 else None"
  have split: "rev [lo..<Suc hi] = rev [Suc (length g)..<Suc hi] @ (length g # rev [lo..<length g])"
  proof -
    have "[lo..<Suc hi] = [lo..<length g] @ [length g..<Suc hi]"
      using lo hi by (metis le_Suc_eq upt_add_eq_append le_iff_add)
    also have "[length g..<Suc hi] = length g # [Suc (length g)..<Suc hi]"
      using hi by (simp add: upt_conv_Cons)
    finally show ?thesis by simp
  qed
  have none: "\<forall>k\<in>set (rev [Suc (length g)..<Suc hi]). ?f k = None"
  proof
    fix k assume "k \<in> set (rev [Suc (length g)..<Suc hi])"
    then have kg: "length g < k" by auto
    show "?f k = None"
    proof (cases t)
      case Nil with kg show ?thesis by simp
    next
      case (Cons c t')
      with t have nc: "\<not> cls c" by simp
      from kg obtain j where j: "k = length g + Suc j"
        using less_imp_Suc_add by auto
      have "take k (g @ t) = g @ c # take j t'" by (simp add: j Cons)
      with nc show ?thesis by simp
    qed
  qed
  have here: "?f (length g) = Some (g # gs')" using g r by simp
  show ?thesis
    by (simp only: rx_groups.simps split first_some_skip [OF none] list.map here first_some.simps)
qed

lemma first_some_single: "first_some [x] = x"
  by (cases x) simp_all

lemma rx_Rep1: "cls p \<Longrightarrow> rx_groups (Rep cls 1 1 # r) (p # t) = rx_groups r t"
  by (simp add: first_some_single)

lemma sep_not_digit: "is_sep c \<Longrightarrow> \<not> is_digit c"
  by (auto simp: is_sep_def is_digit_def)

lemma rx_last_group:
  "digit_group lo hi g \<Longrightarrow> rx_groups [Group is_digit lo hi] g = Some [g]"
  using rx_Group_greedy [of is_digit g lo hi "[]" "[]" "[]"]
  by (simp add: digit_group_def)

lemma rx_group_sep:
  "digit_group lo hi g \<Longrightarrow> is_sep p \<Longrightarrow> rx_groups r t = Some gs
   \<Longrightarrow> rx_groups (Group is_digit lo hi # Rep is_sep 1 1 # r) (g @ p # t) = Some (g # gs)"
  using rx_Group_greedy [of is_digit g lo hi "p # t" "Rep is_sep 1 1 # r" gs]
  by (simp add: digit_group_def sep_not_digit rx_Rep1)

lemma rx_dmy_match:
  assumes "digit_group 1 2 a" "is_sep p" "digit_group 1 2 b" "is_sep q" "digit_group 4 4 y"
  shows "rx_groups re_dmy (a @ p # b @ q # y) = Some [a, b, y]"
  unfolding re_dmy_def
  by (intro rx_group_sep rx_last_group assms)

lemma rx_iso_match:
  assumes "digit_group 4 4 y" "is_sep p" "digit_group 1 2 a" "is_sep q" "digit_group 1 2 b"
  shows "rx_groups re_iso (y @ p # a @ q # b) = Some [y, a, b]"
  unfolding re_iso_def
  by (intro rx_group_sep rx_last_group assms)

lemma rx_group_sepD:
  assumes "rx_groups (Group is_digit lo hi # Rep is_sep 1 1 # r) s = Some gs"
  shows "\<exists>g p t gs'. s = g @ p # t \<and> digit_group lo hi g \<and> is_sep p
            \<and> rx_groups r t = Some gs' \<and> gs = g # gs'"
proof -
  from rx_Group_SomeD [OF assms] obtain g t gs' where
    s: "s = g @ t" and g: "digit_group lo hi g"
    and r: "rx_groups (Rep is_sep 1 1 # r) t = Some gs'" and gs: "gs = g # gs'"
    by (auto simp: digit_group_def)
  from rx_Rep1_SomeD [OF r] obtain p t' where "t = p # t'" "is_sep p" "rx_groups r t' = Some gs'"
    by blast
  with s g gs show ?thesis by blast
qed

lemma rx_last_groupD:
  assumes "rx_groups [Group is_digit lo hi] s = Some gs"
  shows "digit_group lo hi s \<and> gs = [s]"
proof -
  from rx_Group_SomeD [OF assms] obtain g t gs' where
    "s = g @ t" "lo \<le> length g" "length g \<le> hi" "list_all is_digit g"
    "rx_groups [] t = Some gs'" "gs = g # gs'"
    by blast
  then show ?thesis by (auto simp: digit_group_def split: if_splits)
qed

lemma rx_dmy_SomeD:
  assumes "rx_groups re_dmy s = Some gs"
  shows "\<exists>a p b q y. s = a @ p # b @ q # y \<and> gs = [a, b, y] \<and> digit_group 1 2 a \<and> is_sep p
            \<and> digit_group 1 2 b \<and> is_sep q \<and> digit_group 4 4 y"
proof -
  from rx_group_sepD [OF assms [unfolded re_dmy_def]] obtain a p t1 gs1 where
    1: "s = a @ p # t1" "digit_group 1 2 a" "is_sep p" "gs = a # gs1"
    and r1: "rx_groups [Group is_digit 1 2, Rep is_sep 1 1, Group is_digit 4 4] t1 = Some gs1"
    by blast
  from rx_group_sepD [OF r1] obtain b q t2 gs2 where
    2: "t1 = b @ q # t2" "digit_group 1 2 b" "is_sep q" "gs1 = b # gs2"
    and r2: "rx_groups [Group is_digit 4 4] t2 = Some gs2"
    by blast
  from rx_last_groupD [OF r2] 1 2 show ?thesis by blast
qed

lemma rx_iso_SomeD:
  assumes "rx_groups re_iso s = Some gs"
  shows "\<exists>y p a q b. s = y @ p # a @ q # b \<and> gs = [y, a, b] \<and> digit_group 4 4 y \<and> is_sep p
            \<and> digit_group 1 2 a \<and> is_sep q \<and> digit_group 1 2 b"
proof -
  from rx_group_sepD [OF assms [unfolded re_iso_def]] obtain y p t1 gs1 where
    1: "s = y @ p # t1" "digit_group 4 4 y" "is_sep p" "gs = y # gs1"
    and r1: "rx_groups [Group is_digit 1 2, Rep is_sep 1 1, Group is_digit 1 2] t1 = Some gs1"
    by blast
  from rx_group_sepD [OF r1] obtain a q t2 gs2 where
    2: "t1 = a @ q # t2" "digit_group 1 2 a" "is_sep q" "gs1 = a # gs2"
    and r2: "rx_groups [Group is_digit 1 2] t2 = Some gs2"
    by blast
  from rx_last_groupD [OF r2] 1 2 show ?thesis by blast
qed

lemma shape_year_iff: "shape_year s \<longleftrightarrow> rx_groups re_yearOnly s \<noteq> None"
proof
  assume "shape_year s"
  then have "digit_group 4 4 s" by (simp add: shape_year_def)
  from rx_last_group [OF this] show "rx_groups re_yearOnly s \<noteq> None"
    unfolding re_yearOnly_def by force
next
  assume "rx_groups re_yearOnly s \<noteq> None"
  then obtain gs where "rx_groups [Group is_digit 4 4] s = Some gs"
    by (auto simp: re_yearOnly_def)
  from rx_last_groupD [OF this] show "shape_year s"
    by (simp add: shape_year_def)
qed

lemma shape_dmy_iff: "shape_dmy s \<longleftrightarrow> rx_groups re_dmy s \<noteq> None"
proof
  assume "shape_dmy s"
  then obtain a p b q y where "s = a @ p # b @ q # y" "digit_group 1 2 a" "is_sep p"
      "digit_group 1 2 b" "is_sep q" "digit_group 4 4 y"
    unfolding shape_dmy_def by blast
  then show "rx_groups re_dmy s \<noteq> None"
    by (simp add: rx_dmy_match)
next
  assume "rx_groups re_dmy s \<noteq> None"
  then obtain gs where "rx_groups re_dmy s = Some gs" by auto
  from rx_dmy_SomeD [OF this] show "shape_dmy s"
    unfolding shape_dmy_def by blast
qed

lemma shape_iso_iff: "shape_iso s \<longleftrightarrow> rx_groups re_iso s \<noteq> None"
proof
  assume "shape_iso s"
  then obtain y p a q b where "s = y @ p # a @ q # b" "digit_group 4 4 y" "is_sep p"
      "digit_group 1 2 a" "is_sep q" "digit_group 1 2 b"
    unfolding shape_iso_def by blast
  then show "rx_groups re_iso s \<noteq> None"
    by (simp add: rx_iso_match)
next
  assume "rx_groups re_iso s \<noteq> None"
  then obtain gs where "rx_groups re_iso s = Some gs" by auto
  from rx_iso_SomeD [OF this] show "shape_iso s"
    unfolding shape_iso_def by blast
qed

lemma no_year_with_sep:
  "is_sep p \<Longrightarrow> rx_groups re_yearOnly (u @ p # v) = None"
proof (rule ccontr)
  assume p: "is_sep p" and "rx_groups re_yearOnly (u @ p # v) \<noteq> None"
  then obtain gs where "rx_groups [Group is_digit 4 4] (u @ p # v) = Some gs"
    by (auto simp: re_yearOnly_def)
  from rx_last_groupD [OF this] have "is_digit p" by (simp add: digit_group_def)
  with p show False by (simp add: sep_not_digit)
qed

lemma no_dmy_on_iso:
  assumes "digit_group 4 4 y"
  shows "rx_groups re_dmy (y @ t) = None"
proof (rule ccontr)
  assume "rx_groups re_dmy (y @ t) \<noteq> None"
  then obtain gs where "rx_groups re_dmy (y @ t) = Some gs" by auto
  from rx_dmy_SomeD [OF this] obtain a p r where
    eq: "y @ t = a @ p # r" and a: "digit_group 1 2 a" and p: "is_sep p"
    by blast
  from a assms have len: "length a < length y" by (simp add: digit_group_def)
  from eq have "(y @ t) ! length a = (a @ p # r) ! length a" by simp
  with len have "y ! length a = p" by (simp add: nth_append)
  moreover from assms len have "is_digit (y ! length a)"
    by (simp add: digit_group_def list_all_length)
  ultimately show False using p by (simp add: sep_not_digit)
qed

subsection \<open>Parsing dates\<close>

lemma parseDate_year_eq:
  assumes "digit_group 4 4 s"
  shows "parseDate s = Some \<lparr>day = 1, month = 1, year = parseInt_digits s, yearOnly = Some True\<rparr>"
proof -
  from assms have "s \<noteq> []" by (auto simp: digit_group_def)
  moreover from rx_last_group [OF assms] have "js_match s re_yearOnly = Some [s, s]"
    unfolding js_match_def re_yearOnly_def by force
  ultimately show ?thesis by (simp add: parseDate_def)
qed

lemma parseDate_dmy_eq:
  assumes "digit_group 1 2 a" "is_sep p" "digit_group 1 2 b" "is_sep q" "digit_group 4 4 y"
  shows "parseDate (a @ p # b @ q # y) =
    (if parseInt_digits b \<le> 12
     then Some \<lparr>day = parseInt_digits a, month = parseInt_digits b,
                year = parseInt_digits y, yearOnly = None\<rparr>
     else if parseInt_digits a \<le> 12
     then Some \<lparr>day = parseInt_digits b, month = parseInt_digits a,
                year = parseInt_digits y, yearOnly = None\<rparr>
     else Some \<lparr>day = parseInt_digits a, month = min (parseInt_digits b) 12,
                year = parseInt_digits y, yearOnly = None\<rparr>)"
proof -
  let ?s = "a @ p # b @ q # y"
  have 1: "js_match ?s re_yearOnly = None"
    by (simp add: js_match_def no_year_with_sep [OF assms(2)])
  have 2: "js_match ?s re_dmy = Some [?s, a, b, y]"
    by (simp add: js_match_def rx_dmy_match [OF assms])
  show ?thesis by (simp add: parseDate_def 1 2 Let_def)
qed

lemma parseDate_iso_eq:
  assumes "digit_group 4 4 y" "is_sep p" "digit_group 1 2 a" "is_sep q" "digit_group 1 2 b"
  shows "parseDate (y @ p # a @ q # b) =
     Some \<lparr>day = parseInt_digits b, month = parseInt_digits a,
           year = parseInt_digits y, yearOnly = None\<rparr>"
proof -
  let ?s = "y @ p # a @ q # b"
  have 1: "js_match ?s re_yearOnly = None"
    by (simp add: js_match_def no_year_with_sep [OF assms(2)])
  have 2: "js_match ?s re_dmy = None"
    by (simp add: js_match_def no_dmy_on_iso [OF assms(1)])
  have 3: "js_match ?s re_iso = Some [?s, y, a, b]"
    by (simp add: js_match_def rx_iso_match [OF assms])
  show ?thesis by (simp add: parseDate_def 1 2 3)
qed

lemma parseDate_no_shape:
  assumes "\<not> shape_year s" "\<not> shape_dmy s" "\<not> shape_iso s"
  shows "parseDate s = None"
  using assms
  by (simp add: parseDate_def js_match_def shape_year_iff shape_dmy_iff shape_iso_iff)

text \<open>
  Claim C1. On every string of the shape \<open>D[/-.]M[/-.]YYYY\<close> (one or two digits, a
  separator, one or two digits, a separator, four digits) \<open>parseDate\<close> applies the
  day-first rule: when the second group is at most 12 the first group is the day and the
  second the month; otherwise, when the first group is at most 12, the first group is the
  month and the second the day; otherwise the first group is the day and the month is
  the second group clamped to 12. In particular \<open>03/25/1990\<close> is the 25th of March 1990.
\<close>

theorem parseDate_day_first:
  assumes "digit_group 1 2 a" "is_sep p" "digit_group 1 2 b" "is_sep q" "digit_group 4 4 y"
  shows "(parseInt_digits b \<le> 12 \<longrightarrow>
            parseDate (a @ p # b @ q # y) =
              Some \<lparr>day = parseInt_digits a, month = parseInt_digits b,
                    year = parseInt_digits y, yearOnly = None\<rparr>)
       \<and> (parseInt_digits b > 12 \<and> parseInt_digits a \<le> 12 \<longrightarrow>
            parseDate (a @ p # b @ q # y) =
              Some \<lparr>day = parseInt_digits b, month = parseInt_digits a,
                    year = parseInt_digits y, yearOnly = None\<rparr>)
       \<and> (parseInt_digits b > 12 \<and> parseInt_digits a > 12 \<longrightarrow>
            parseDate (a @ p # b @ q # y) =
              Some \<lparr>day = parseInt_digits a, month = min (parseInt_digits b) 12,
                    year = parseInt_digits y, yearOnly = None\<rparr>)
       \<and> parseDate ''03/25/1990'' =
              Some \<lparr>day = 25, month = 3, year = 1990, yearOnly = None\<rparr>"
proof -
  have ex: "parseDate ''03/25/1990'' = Some \<lparr>day = 25, month = 3, year = 1990, yearOnly = None\<rparr>"
    by code_simp
  show ?thesis
    using ex by (simp add: parseDate_dmy_eq [OF assms])
qed

theorem parseDate_day_first_witness:
  "parseDate (''25'' @ CHR ''/'' # ''03'' @ CHR ''/'' # ''1990'')
     = Some \<lparr>day = 25, month = 3, year = 1990, yearOnly = None\<rparr>
   \<and> parseDate (''03'' @ CHR ''/'' # ''25'' @ CHR ''/'' # ''1990'')
     = Some \<lparr>day = 25, month = 3, year = 1990, yearOnly = None\<rparr>"
  using parseDate_day_first [of "''25''" "CHR ''/''" "''03''" "CHR ''/''" "''1990''"]
        parseDate_day_first [of "''03''" "CHR ''/''" "''25''" "CHR ''/''" "''1990''"]
  by (simp add: digit_group_def is_digit_def is_sep_def parseInt_digits_def digit_val_def)

text \<open>
  Claim C7. On a string of exactly four digits \<open>parseDate\<close> returns day 1, month 1, the
  number the digits denote as the year, and \<open>yearOnly\<close> set to true. On a string that has
  none of the three shapes it returns null. \<open>parseDate\<close> is a total function here: on a
  string argument the source has no statement that throws, and null is the only signal.
\<close>

theorem parseDate_year_or_null:
  "(shape_year s \<longrightarrow>
      parseDate s = Some \<lparr>day = 1, month = 1, year = parseInt_digits s, yearOnly = Some True\<rparr>)
   \<and> (\<not> shape_year s \<and> \<not> shape_dmy s \<and> \<not> shape_iso s \<longrightarrow> parseDate s = None)"
  by (simp add: parseDate_year_eq shape_year_def parseDate_no_shape)

theorem parseDate_year_or_null_witness:
  "shape_year ''1990''
   \<and> parseDate ''1990'' = Some \<lparr>day = 1, month = 1, year = 1990, yearOnly = Some True\<rparr>
   \<and> \<not> shape_year ''10-Dec-1990'' \<and> \<not> shape_dmy ''10-Dec-1990'' \<and> \<not> shape_iso ''10-Dec-1990''
   \<and> parseDate ''10-Dec-1990'' = None"
proof -
  have y: "shape_year ''1990''"
    by (simp add: shape_year_def digit_group_def is_digit_def)
  have n1: "\<not> shape_year ''10-Dec-1990''"
    by (simp add: shape_year_def digit_group_def)
  have "rx_groups re_dmy ''10-Dec-1990'' = None" by code_simp
  then have n2: "\<not> shape_dmy ''10-Dec-1990''" by (simp add: shape_dmy_iff)
  have "rx_groups re_iso ''10-Dec-1990'' = None" by code_simp
  then have n3: "\<not> shape_iso ''10-Dec-1990''" by (simp add: shape_iso_iff)
  have v: "parseInt_digits ''1990'' = 1990"
    by (simp add: parseInt_digits_def digit_val_def)
  from parseDate_year_or_null [of "''1990''"] parseDate_year_or_null [of "''10-Dec-1990''"]
    y n1 n2 n3 v
  show ?thesis by simp
qed

subsection \<open>Formatting and the round trip\<close>

lemma digit_char_cases:
  assumes "d < 10"
  shows "digit_char d \<in> set ''0123456789'' \<and> digit_val (digit_char d) = d"
proof -
  from assms consider "d = 0" | "d = 1" | "d = 2" | "d = 3" | "d = 4"
    | "d = 5" | "d = 6" | "d = 7" | "d = 8" | "d = 9"
    by atomize_elim arith
  then show ?thesis
    by cases (simp_all add: digit_char_def digit_val_def)
qed

lemma is_digit_digit_char: "d < 10 \<Longrightarrow> is_digit (digit_char d)"
  using digit_char_cases [of d] by (simp add: is_digit_def)

lemma digit_val_digit_char: "d < 10 \<Longrightarrow> digit_val (digit_char d) = d"
  using digit_char_cases [of d] by simp

lemma parseInt_digits_snoc:
  "parseInt_digits (xs @ [c]) = 10 * parseInt_digits xs + digit_val c"
  by (simp add: parseInt_digits_def)

lemma parseInt_String_nat: "parseInt_digits (String_nat n) = n"
proof (induction n rule: String_nat.induct)
  case (1 n)
  show ?case
  proof (cases "n < 10")
    case True
    then show ?thesis
      by (simp add: String_nat.simps [of n] parseInt_digits_def digit_val_digit_char)
  next
    case False
    with 1 have "parseInt_digits (String_nat (n div 10)) = n div 10" by simp
    with False show ?thesis
      by (simp add: String_nat.simps [of n] parseInt_digits_snoc digit_val_digit_char)
  qed
qed

lemma digits_String_nat: "list_all is_digit (String_nat n)"
proof (induction n rule: String_nat.induct)
  case (1 n)
  show ?case
  proof (cases "n < 10")
    case True
    then show ?thesis by (simp add: String_nat.simps [of n] is_digit_digit_char)
  next
    case False
    with 1 have "list_all is_digit (String_nat (n div 10))" by simp
    with False show ?thesis
      by (simp add: String_nat.simps [of n] is_digit_digit_char)
  qed
qed

lemma length_String_nat_1: "n < 10 \<Longrightarrow> length (String_nat n) = 1"
  by (simp add: String_nat.simps [of n])

lemma length_String_nat_2: "10 \<le> n \<Longrightarrow> n < 100 \<Longrightarrow> length (String_nat n) = 2"
  by (simp add: String_nat.simps [of n] length_String_nat_1)

lemma length_String_nat_3: "100 \<le> n \<Longrightarrow> n < 1000 \<Longrightarrow> length (String_nat n) = 3"
  by (simp add: String_nat.simps [of n] length_String_nat_2)

lemma length_String_nat_4: "1000 \<le> n \<Longrightarrow> n < 10000 \<Longrightarrow> length (String_nat n) = 4"
  by (simp add: String_nat.simps [of n] length_String_nat_3)

lemma parseInt_digits_zeros:
  "parseInt_digits (replicate k CHR ''0'' @ s) = parseInt_digits s"
proof -
  have "foldl (\<lambda>n c. 10 * n + digit_val c) 0 (replicate k CHR ''0'') = 0"
    by (induction k) (simp_all add: digit_val_def)
  then show ?thesis by (simp add: parseInt_digits_def)
qed

lemma pad2:
  assumes "n < 100"
  shows "length (padStart (String_nat n) 2 CHR ''0'') = 2"
    and "list_all is_digit (padStart (String_nat n) 2 CHR ''0'')"
    and "parseInt_digits (padStart (String_nat n) 2 CHR ''0'') = n"
proof -
  have z: "is_digit CHR ''0''" by (simp add: is_digit_def)
  show "length (padStart (String_nat n) 2 CHR ''0'') = 2"
    using assms length_String_nat_1 [of n] length_String_nat_2 [of n]
    by (cases "n < 10") (simp_all add: padStart_def)
  show "list_all is_digit (padStart (String_nat n) 2 CHR ''0'')"
    using z digits_String_nat [of n] by (auto simp: padStart_def list_all_iff)
  show "parseInt_digits (padStart (String_nat n) 2 CHR ''0'') = n"
    by (simp add: padStart_def parseInt_digits_zeros parseInt_String_nat)
qed

lemma pad2_group: "n < 100 \<Longrightarrow> digit_group 1 2 (padStart (String_nat n) 2 CHR ''0'')"
  by (simp add: digit_group_def pad2)

lemma year_group: "1000 \<le> n \<Longrightarrow> n \<le> 9999 \<Longrightarrow> digit_group 4 4 (String_nat n)"
  by (simp add: digit_group_def digits_String_nat length_String_nat_4)

lemma seps: "is_sep CHR ''/''" "is_sep CHR ''-''" "is_sep CHR ''.''"
  by (simp_all add: is_sep_def)

lemma monthName_letter:
  assumes "1 \<le> m" "m \<le> 12"
  shows "\<exists>c r. monthNames ! (m - 1) = c # r \<and> \<not> is_digit c"
proof -
  from assms consider "m = 1" | "m = 2" | "m = 3" | "m = 4" | "m = 5" | "m = 6"
    | "m = 7" | "m = 8" | "m = 9" | "m = 10" | "m = 11" | "m = 12"
    by atomize_elim arith
  then show ?thesis
    by cases (simp_all add: monthNames_def is_digit_def)
qed

lemma no_dmy_on_letter:
  assumes a: "digit_group 2 2 a" and c: "\<not> is_digit c"
  shows "rx_groups re_dmy (a @ p # c # r) = None"
proof (rule ccontr)
  assume "rx_groups re_dmy (a @ p # c # r) \<noteq> None"
  then obtain gs where "rx_groups re_dmy (a @ p # c # r) = Some gs" by auto
  from rx_dmy_SomeD [OF this] obtain a' p' b' q' y' where
    eq: "a @ p # c # r = a' @ p' # b' @ q' # y'" and a': "digit_group 1 2 a'"
    and p': "is_sep p'" and b': "digit_group 1 2 b'"
    by blast
  from a obtain a1 a2 where a12: "a = [a1, a2]" "is_digit a1" "is_digit a2"
    by (cases a; cases "tl a") (auto simp: digit_group_def)
  from b' obtain b1 bs where b1: "b' = b1 # bs" "is_digit b1"
    by (cases b') (auto simp: digit_group_def)
  from a' consider x where "a' = [x]" | x z where "a' = [x, z]"
    by (cases a'; cases "tl a'") (auto simp: digit_group_def)
  then show False
  proof cases
    case 1
    with eq a12 have "p' = a2" by simp
    with p' a12 show False by (simp add: sep_not_digit)
  next
    case 2
    with eq a12 b1 have "c = b1" by simp
    with c b1 show False by simp
  qed
qed

lemma no_iso_on_dd_sep:
  assumes a: "length a \<le> 3" and p: "is_sep p"
  shows "rx_groups re_iso (a @ p # r) = None"
proof (rule ccontr)
  assume "rx_groups re_iso (a @ p # r) \<noteq> None"
  then obtain gs where "rx_groups re_iso (a @ p # r) = Some gs" by auto
  from rx_iso_SomeD [OF this] obtain y t where
    eq: "a @ p # r = y @ t" and y: "digit_group 4 4 y"
    by blast
  from y a have len: "length a < length y" by (simp add: digit_group_def)
  from eq have "(a @ p # r) ! length a = (y @ t) ! length a" by simp
  with len have "p = y ! length a" by (simp add: nth_append)
  moreover from y len have "is_digit (y ! length a)"
    by (simp add: digit_group_def list_all_length)
  ultimately show False using p by (simp add: sep_not_digit)
qed

lemma pad2_group2: "n < 100 \<Longrightarrow> digit_group 2 2 (padStart (String_nat n) 2 CHR ''0'')"
  by (simp add: digit_group_def pad2)

text \<open>
  Claim C2, as amended. For a valid canonical date and the formats \<open>DD/MM/YYYY\<close>,
  \<open>DD-MM-YYYY\<close> and \<open>YYYY-MM-DD\<close>, parsing the formatted date gives back its day, month
  and year. For \<open>MM/DD/YYYY\<close> it gives them back when the day is above 12 and gives day
  and month swapped when the day is at most 12. For \<open>DD-Mon-YYYY\<close> the result is null:
  \<open>parseDate\<close> reads no month names. The result never carries \<open>yearOnly\<close>.
\<close>

theorem parseDate_formatDateToExpected:
  assumes "valid_date d"
  shows "(F \<in> {''DD/MM/YYYY'', ''DD-MM-YYYY'', ''YYYY-MM-DD''} \<longrightarrow>
            parseDate (formatDateToExpected d F)
              = Some \<lparr>day = day d, month = month d, year = year d, yearOnly = None\<rparr>)
       \<and> (12 < day d \<longrightarrow>
            parseDate (formatDateToExpected d ''MM/DD/YYYY'')
              = Some \<lparr>day = day d, month = month d, year = year d, yearOnly = None\<rparr>)
       \<and> (day d \<le> 12 \<longrightarrow>
            parseDate (formatDateToExpected d ''MM/DD/YYYY'')
              = Some \<lparr>day = month d, month = day d, year = year d, yearOnly = None\<rparr>)
       \<and> parseDate (formatDateToExpected d ''DD-Mon-YYYY'') = None"
proof -
  let ?dd = "padStart (String_nat (day d)) 2 CHR ''0''"
  let ?mm = "padStart (String_nat (month d)) 2 CHR ''0''"
  let ?yy = "String_nat (year d)"
  let ?r = "Some \<lparr>day = day d, month = month d, year = year d, yearOnly = None\<rparr>"
  from assms have b: "day d < 100" "month d < 100" "1000 \<le> year d" "year d \<le> 9999"
    and m12: "month d \<le> 12" "1 \<le> month d"
    by (simp_all add: valid_date_def)
  note dd = pad2_group [OF b(1)] pad2(3) [OF b(1)]
  note dd2 = pad2_group2 [OF b(1)]
  note mm = pad2_group [OF b(2)] pad2(3) [OF b(2)]
  note yy = year_group [OF b(3) b(4)] parseInt_String_nat [of "year d"]
  have dmy: "parseDate (?dd @ p # ?mm @ q # ?yy) = ?r" if "is_sep p" "is_sep q" for p q
    using parseDate_dmy_eq [OF dd(1) that(1) mm(1) that(2) yy(1)] m12
    by (simp add: dd mm yy)
  have slash: "parseDate (formatDateToExpected d ''DD/MM/YYYY'') = ?r"
    using dmy [OF seps(1) seps(1)] by (simp add: formatDateToExpected_def Let_def)
  have dash: "parseDate (formatDateToExpected d ''DD-MM-YYYY'') = ?r"
    using dmy [OF seps(2) seps(2)] by (simp add: formatDateToExpected_def Let_def)
  have iso: "parseDate (formatDateToExpected d ''YYYY-MM-DD'') = ?r"
    using parseDate_iso_eq [OF yy(1) seps(2) mm(1) seps(2) dd(1)]
    by (simp add: formatDateToExpected_def Let_def dd mm yy)
  have mdy: "parseDate (formatDateToExpected d ''MM/DD/YYYY'') =
      (if day d \<le> 12
       then Some \<lparr>day = month d, month = day d, year = year d, yearOnly = None\<rparr>
       else ?r)"
    using parseDate_dmy_eq [OF mm(1) seps(1) dd(1) seps(1) yy(1)] m12
    by (simp add: formatDateToExpected_def Let_def dd mm yy)
  have mon: "parseDate (formatDateToExpected d ''DD-Mon-YYYY'') = None"
  proof -
    from monthName_letter [OF m12(2) m12(1)] obtain c r where
      c: "monthNames ! (month d - 1) = c # r" "\<not> is_digit c"
      by blast
    let ?s = "?dd @ CHR ''-'' # c # r @ CHR ''-'' # ?yy"
    have s: "formatDateToExpected d ''DD-Mon-YYYY'' = ?s"
      using m12 c by (simp add: formatDateToExpected_def Let_def)
    have "\<not> shape_year ?s"
      by (simp add: shape_year_iff no_year_with_sep [OF seps(2)])
    moreover have "\<not> shape_dmy ?s"
      by (simp add: shape_dmy_iff no_dmy_on_letter [OF dd2 c(2)])
    moreover have "\<not> shape_iso ?s"
      using dd2 by (simp add: shape_iso_iff no_iso_on_dd_sep [OF _ seps(2)] digit_group_def)
    ultimately have "parseDate ?s = None"
      by (rule parseDate_no_shape)
    then show ?thesis by (simp only: s)
  qed
  from slash dash iso mdy mon show ?thesis by auto
qed

theorem parseDate_formatDateToExpected_witness:
  "parseDate (formatDateToExpected \<lparr>day = 15, month = 8, year = 1995, yearOnly = None\<rparr> ''YYYY-MM-DD'')
     = Some \<lparr>day = 15, month = 8, year = 1995, yearOnly = None\<rparr>
   \<and> parseDate (formatDateToExpected \<lparr>day = 15, month = 8, year = 1995, yearOnly = None\<rparr> ''MM/DD/YYYY'')
     = Some \<lparr>day = 15, month = 8, year = 1995, yearOnly = None\<rparr>
   \<and> parseDate (formatDateToExpected \<lparr>day = 15, month = 8, year = 1995, yearOnly = None\<rparr> ''DD-Mon-YYYY'')
     = None"
proof -
  have v: "valid_date \<lparr>day = 15, month = 8, year = 1995, yearOnly = None\<rparr>"
    by (simp add: valid_date_def)
  from parseDate_formatDateToExpected [OF v, of "''YYYY-MM-DD''"]
  show ?thesis by simp
qed

text \<open>
  Claim C2 as stated fails. The round trip fails for a format other than \<open>MM/DD/YYYY\<close>: the 5th of March 1990 is
  written \<open>05-Mar-1990\<close> in the format \<open>DD-Mon-YYYY\<close>, which \<open>parseDate\<close> rejects.
\<close>

theorem roundtrip_month_name_counterexample:
  "formatDateToExpected \<lparr>day = 5, month = 3, year = 1990, yearOnly = None\<rparr> ''DD-Mon-YYYY''
     = ''05-Mar-1990''
   \<and> parseDate ''05-Mar-1990'' = None"
proof -
  have "formatDateToExpected \<lparr>day = 5, month = 3, year = 1990, yearOnly = None\<rparr> ''DD-Mon-YYYY''
     = ''05-Mar-1990''"
    by code_simp
  moreover have "parseDate ''05-Mar-1990'' = None"
    by code_simp
  ultimately show ?thesis by simp
qed

text \<open>
  Claim C3 fails on the code: \<open>parseDate\<close> checks no range. A zero day and month pass
  through the day-first branch, a day above 31 passes through every branch, and the ISO
  branch applies no bound to the month at all, although the comment in the source says
  that the day should be 1 to 31 and the month 1 to 12.
\<close>

theorem parseDate_out_of_range:
  "parseDate ''00/00/1990'' = Some \<lparr>day = 0, month = 0, year = 1990, yearOnly = None\<rparr>
   \<and> parseDate ''45/13/1990'' = Some \<lparr>day = 45, month = 12, year = 1990, yearOnly = None\<rparr>
   \<and> parseDate ''1990-13-45'' = Some \<lparr>day = 45, month = 13, year = 1990, yearOnly = None\<rparr>"
proof -
  have "parseDate ''00/00/1990'' = Some \<lparr>day = 0, month = 0, year = 1990, yearOnly = None\<rparr>"
    by code_simp
  moreover have "parseDate ''45/13/1990'' = Some \<lparr>day = 45, month = 12, year = 1990, yearOnly = None\<rparr>"
    by code_simp
  moreover have "parseDate ''1990-13-45'' = Some \<lparr>day = 45, month = 13, year = 1990, yearOnly = None\<rparr>"
    by code_simp
  ultimately show ?thesis by simp
qed

subsection \<open>Field classifier\<close>

lemma match_entries_key:
  "match_entries entries identifiers = Some ft \<Longrightarrow> ft \<in> fst ` set entries"
  by (induction entries identifiers rule: match_entries.induct) (auto split: if_splits)

lemma match_entries_Nil: "match_entries entries [] = None"
proof -
  have p: "\<not> match_patterns patterns []" for patterns
    by (induction patterns) simp_all
  show ?thesis
    by (induction entries) (auto simp: p)
qed

lemma identifyField_fieldType:
  assumes "identifyField input = Inr (Some r)"
  shows "fieldType r \<in> fst ` set FIELD_MAPPING"
proof -
  from assms obtain ft ids where "match_entries FIELD_MAPPING ids = Some ft" "fieldType r = ft"
    by (auto simp: identifyField_def Let_def split: if_splits sum.splits option.splits)
  then show ?thesis by (simp add: match_entries_key)
qed

lemma FIELD_MAPPING_keys:
  "fst ` set FIELD_MAPPING =
    {''name'', ''full_name'', ''father_name'', ''aadhaar_number'', ''pan_number'',
     ''voter_id_number'', ''date_of_birth'', ''gender'', ''address'', ''mobile_number'',
     ''email'', ''community'', ''annual_income''}"
  by (simp add: FIELD_MAPPING_def)

text \<open>
  Claim C4, as amended. When \<open>identifyField\<close> returns a result, its field type is one of
  the thirteen keys of the pattern table: the key \<open>name\<close>, which is not in the vocabulary
  of semantic field types, or one of the twelve keys that are.
\<close>

theorem identifyField_fieldType_in_table:
  assumes "identifyField input = Inr (Some r)"
  shows "fieldType r \<in> {''name'', ''full_name'', ''father_name'', ''aadhaar_number'',
            ''pan_number'', ''voter_id_number'', ''date_of_birth'', ''gender'', ''address'',
            ''mobile_number'', ''email'', ''community'', ''annual_income''}
         \<and> (fieldType r = ''name'' \<or> fieldType r \<in> set semantic_field_types)"
proof -
  from identifyField_fieldType [OF assms]
  have k: "fieldType r \<in> {''name'', ''full_name'', ''father_name'', ''aadhaar_number'',
            ''pan_number'', ''voter_id_number'', ''date_of_birth'', ''gender'', ''address'',
            ''mobile_number'', ''email'', ''community'', ''annual_income''}"
    by (simp only: FIELD_MAPPING_keys)
  then have "fieldType r = ''name'' \<or> fieldType r \<in> set semantic_field_types"
    unfolding semantic_field_types_def by auto
  with k show ?thesis by blast
qed

theorem identifyField_fieldType_in_table_witness:
  "identifyField \<lparr>tagName = ''INPUT'', el_type = ''text'', el_name = ''aadhar_no'', el_id = '''',
     placeholder = '''', ariaLabel = None, el_value = '''', checked = False, options = [],
     labelFor = Inr None, closestLabel = None, previousElementSibling = None, events = []\<rparr>
   = Inr (Some \<lparr>fieldType = ''aadhaar_number'', field_identifier = ''aadhar_no'',
                 field_label = ''aadhar_no''\<rparr>)
   \<and> ''aadhaar_number'' \<in> set semantic_field_types"
proof -
  have e: "identifyField \<lparr>tagName = ''INPUT'', el_type = ''text'', el_name = ''aadhar_no'', el_id = '''',
     placeholder = '''', ariaLabel = None, el_value = '''', checked = False, options = [],
     labelFor = Inr None, closestLabel = None, previousElementSibling = None, events = []\<rparr>
   = Inr (Some \<lparr>fieldType = ''aadhaar_number'', field_identifier = ''aadhar_no'',
                 field_label = ''aadhar_no''\<rparr>)"
    by code_simp
  from identifyField_fieldType_in_table [OF e] e show ?thesis by simp
qed

text \<open>
  Claim C4 as stated fails. A text input named \<open>name\<close> is classified with the field type \<open>name\<close>, the first key
  of the table, which is outside the vocabulary of fifteen semantic field types.
\<close>

theorem identifyField_name_counterexample:
  "identifyField \<lparr>tagName = ''INPUT'', el_type = ''text'', el_name = ''name'', el_id = '''',
     placeholder = '''', ariaLabel = None, el_value = '''', checked = False, options = [],
     labelFor = Inr None, closestLabel = None, previousElementSibling = None, events = []\<rparr>
   = Inr (Some \<lparr>fieldType = ''name'', field_identifier = ''name'', field_label = ''name''\<rparr>)
   \<and> ''name'' \<notin> set semantic_field_types"
proof -
  have "identifyField \<lparr>tagName = ''INPUT'', el_type = ''text'', el_name = ''name'', el_id = '''',
     placeholder = '''', ariaLabel = None, el_value = '''', checked = False, options = [],
     labelFor = Inr None, closestLabel = None, previousElementSibling = None, events = []\<rparr>
   = Inr (Some \<lparr>fieldType = ''name'', field_identifier = ''name'', field_label = ''name''\<rparr>)"
    by code_simp
  moreover have "''name'' \<notin> set semantic_field_types"
    by (simp add: semantic_field_types_def)
  ultimately show ?thesis by simp
qed

text \<open>
  Claim C9. A control whose name, id, placeholder, resolved label text and aria-label are
  all empty is never classified: the empty strings are filtered out of the identifiers,
  nothing is left to match, and \<open>identifyField\<close> returns null.
\<close>

theorem identifyField_blank:
  assumes "el_name input = ''''" "el_id input = ''''" "placeholder input = ''''"
    and "getFieldLabel input = Inr ''''"
    and "ariaLabel input = None \<or> ariaLabel input = Some ''''"
  shows "identifyField input = Inr None"
  using assms
  by (auto simp: identifyField_def toLowerCase_def match_entries_Nil)

theorem identifyField_blank_witness:
  "identifyField \<lparr>tagName = ''INPUT'', el_type = ''text'', el_name = '''', el_id = '''',
     placeholder = '''', ariaLabel = Some '''', el_value = ''abc'', checked = False, options = [],
     labelFor = Inr None, closestLabel = None,
     previousElementSibling = Some (''DIV'', ''Full name''), events = []\<rparr> = Inr None"
  by (rule identifyField_blank) (simp_all add: getFieldLabel_def label_around_def)

subsection \<open>Select purpose resolver and value writer\<close>

lemma js_includes_iff: "js_includes s p \<longleftrightarrow> occurs_in p s"
proof
  assume "js_includes s p"
  then obtain i where i: "take (length p) (drop i s) = p"
    by (auto simp: js_includes_def list_ex_iff)
  have "drop i s = p @ drop (length p) (drop i s)"
    by (metis i append_take_drop_id)
  then have "s = take i s @ p @ drop (length p) (drop i s)"
    by (metis append_take_drop_id)
  then show "occurs_in p s" unfolding occurs_in_def by blast
next
  assume "occurs_in p s"
  then obtain u w where s: "s = u @ p @ w" unfolding occurs_in_def by blast
  then have "take (length p) (drop (length u) s) = p" by simp
  moreover from s have "length u \<in> set [0..<Suc (length s)]" by simp
  ultimately show "js_includes s p"
    unfolding js_includes_def list_ex_iff by blast
qed

lemma fold_max_Max:
  fixes xs :: "nat list"
  assumes "xs \<noteq> []"
  shows "fold max xs 0 = Max (set xs)"
proof -
  have "fold max xs 0 = Max (set (0 # xs))" by (simp only: Max.set_eq_fold)
  also have "\<dots> = max 0 (Max (set xs))" using assms by simp
  finally show ?thesis by simp
qed

text \<open>
  Claim C8, as amended. The hints \<open>day\<close>, \<open>month\<close> and \<open>year\<close> are looked for in the
  lower-cased name and id, the hints \<open>dd\<close>, \<open>mm\<close>, \<open>yyyy\<close> and \<open>yy\<close> in the name only,
  day before month before year. Without a hint the resolver inspects, for each option,
  its value, or its text when the value is empty: if one of them starts with a month
  abbreviation the select is a month select; otherwise the maximum of the purely numeric
  ones decides: 28 to 31 is day; 12, or less than 12 with at most 13 numeric entries, is
  month; above 1900 is year. In every other case the result is null.
\<close>

theorem detectSelectPurpose_cases:
  assumes name: "name = toLowerCase (el_name el)" and id: "ident = toLowerCase (el_id el)"
    and vals: "vals = map (\<lambda>opt. if opt_value opt \<noteq> [] then opt_value opt else opt_text opt) opts"
    and nums: "nums = map parseInt_digits (filter all_digits vals)"
  shows "detectSelectPurpose el opts =
    (if occurs_in ''day'' name \<or> occurs_in ''day'' ident \<or> occurs_in ''dd'' name
     then Some ''day''
     else if occurs_in ''month'' name \<or> occurs_in ''month'' ident \<or> occurs_in ''mm'' name
     then Some ''month''
     else if occurs_in ''year'' name \<or> occurs_in ''year'' ident \<or> occurs_in ''yy'' name
     then Some ''year''
     else if \<exists>v\<in>set vals. starts_with_month v then Some ''month''
     else if nums = [] then None
     else if 28 \<le> Max (set nums) \<and> Max (set nums) \<le> 31 then Some ''day''
     else if Max (set nums) = 12 \<or> (Max (set nums) < 12 \<and> length nums \<le> 13)
     then Some ''month''
     else if 1900 < Max (set nums) then Some ''year''
     else None)"
proof -
  have yy: "occurs_in ''yyyy'' s \<Longrightarrow> occurs_in ''yy'' s" for s
  proof -
    assume "occurs_in ''yyyy'' s"
    then obtain u w where "s = u @ ''yyyy'' @ w" unfolding occurs_in_def by blast
    then have "s = u @ ''yy'' @ (''yy'' @ w)" by simp
    then show ?thesis unfolding occurs_in_def by blast
  qed
  have v: "map (\<lambda>opt. or_else (opt_value opt) (opt_text opt)) opts = vals"
    by (simp add: vals or_else_def)
  define M where "M = Max (set nums)"
  have fm: "fold max nums 0 = M" if "nums \<noteq> []"
    using fold_max_Max [OF that] by (simp add: M_def)
  have "detectSelectPurpose el opts =
    (if occurs_in ''day'' name \<or> occurs_in ''day'' ident \<or> occurs_in ''dd'' name
     then Some ''day''
     else if occurs_in ''month'' name \<or> occurs_in ''month'' ident \<or> occurs_in ''mm'' name
     then Some ''month''
     else if occurs_in ''year'' name \<or> occurs_in ''year'' ident \<or> occurs_in ''yy'' name
     then Some ''year''
     else if \<exists>v\<in>set vals. starts_with_month v then Some ''month''
     else if nums = [] then None
     else if 28 \<le> M \<and> M \<le> 31 then Some ''day''
     else if M = 12 \<or> (M < 12 \<and> length nums \<le> 13)
     then Some ''month''
     else if 1900 < M then Some ''year''
     else None)"
    using yy [of name] fm
    by (cases "nums = []")
       (auto simp: detectSelectPurpose_def Let_def js_includes_iff v list_ex_iff
            name [symmetric] id [symmetric] nums [symmetric])
  then show ?thesis unfolding M_def .
qed

theorem detectSelectPurpose_cases_witness:
  "detectSelectPurpose
     \<lparr>tagName = ''SELECT'', el_type = ''select-one'', el_name = ''Birth'', el_id = ''f2'',
      placeholder = '''', ariaLabel = None, el_value = '''', checked = False, options = [],
      labelFor = Inr None, closestLabel = None, previousElementSibling = None, events = []\<rparr>
     [\<lparr>opt_value = '''', opt_text = ''Select''\<rparr>, \<lparr>opt_value = ''29'', opt_text = ''29''\<rparr>,
      \<lparr>opt_value = ''30'', opt_text = ''30''\<rparr>]
   = Some ''day''"
proof -
  let ?el = "\<lparr>tagName = ''SELECT'', el_type = ''select-one'', el_name = ''Birth'', el_id = ''f2'',
      placeholder = '''', ariaLabel = None, el_value = '''', checked = False, options = [],
      labelFor = Inr None, closestLabel = None, previousElementSibling = None, events = []\<rparr>"
  let ?opts = "[\<lparr>opt_value = '''', opt_text = ''Select''\<rparr>, \<lparr>opt_value = ''29'', opt_text = ''29''\<rparr>,
      \<lparr>opt_value = ''30'', opt_text = ''30''\<rparr>]"
  have h1: "''birth'' = toLowerCase (el_name ?el)" by code_simp
  have h2: "''f2'' = toLowerCase (el_id ?el)" by code_simp
  have h3: "[''Select'', ''29'', ''30''] =
      map (\<lambda>opt. if opt_value opt \<noteq> [] then opt_value opt else opt_text opt) ?opts"
    by simp
  have h4: "[29, 30] = map parseInt_digits (filter all_digits [''Select'', ''29'', ''30''])"
    by code_simp
  have n: "\<not> js_includes ''birth'' ''day''" "\<not> js_includes ''f2'' ''day''"
    "\<not> js_includes ''birth'' ''dd''" "\<not> js_includes ''birth'' ''month''"
    "\<not> js_includes ''f2'' ''month''" "\<not> js_includes ''birth'' ''mm''"
    "\<not> js_includes ''birth'' ''year''" "\<not> js_includes ''f2'' ''year''"
    "\<not> js_includes ''birth'' ''yyyy''" "\<not> js_includes ''birth'' ''yy''"
    by code_simp+
  have m: "\<not> starts_with_month ''Select''" "\<not> starts_with_month ''29''"
    "\<not> starts_with_month ''30''"
    by code_simp+
  from detectSelectPurpose_cases [OF h1 h2 h3 h4] n m
  show ?thesis by (simp add: js_includes_iff)
qed

text \<open>
  Claim C8 as stated fails. A select whose id is \<open>dd\<close>, with no name and no options, is not resolved by the code,
  while the resolver of the specification, which looks for each hint in the id as well,
  says day.
\<close>

theorem detectSelectPurpose_counterexample:
  "detectSelectPurpose
     \<lparr>tagName = ''SELECT'', el_type = ''select-one'', el_name = '''', el_id = ''dd'',
      placeholder = '''', ariaLabel = None, el_value = '''', checked = False, options = [],
      labelFor = Inr None, closestLabel = None, previousElementSibling = None, events = []\<rparr> []
     = None
   \<and> spec_resolvePurpose
     \<lparr>tagName = ''SELECT'', el_type = ''select-one'', el_name = '''', el_id = ''dd'',
      placeholder = '''', ariaLabel = None, el_value = '''', checked = False, options = [],
      labelFor = Inr None, closestLabel = None, previousElementSibling = None, events = []\<rparr> []
     = Some ''day''"
proof -
  have "detectSelectPurpose
     \<lparr>tagName = ''SELECT'', el_type = ''select-one'', el_name = '''', el_id = ''dd'',
      placeholder = '''', ariaLabel = None, el_value = '''', checked = False, options = [],
      labelFor = Inr None, closestLabel = None, previousElementSibling = None, events = []\<rparr> []
     = None"
    by code_simp
  moreover have "spec_resolvePurpose
     \<lparr>tagName = ''SELECT'', el_type = ''select-one'', el_name = '''', el_id = ''dd'',
      placeholder = '''', ariaLabel = None, el_value = '''', checked = False, options = [],
      labelFor = Inr None, closestLabel = None, previousElementSibling = None, events = []\<rparr> []
     = Some ''day''"
    by code_simp
  ultimately show ?thesis by simp
qed

text \<open>
  Two more inputs on which the code and the resolver of the specification differ. With
  fourteen numeric options whose maximum is 12 the code says month, since a maximum equal
  to 12 is accepted whatever the number of options. With an option whose value is not
  empty the code never looks at the text of that option.
\<close>

lemma detectSelectPurpose_max_12_any_count:
  "detectSelectPurpose
     \<lparr>tagName = ''SELECT'', el_type = ''select-one'', el_name = ''f1'', el_id = ''f1'',
      placeholder = '''', ariaLabel = None, el_value = '''', checked = False, options = [],
      labelFor = Inr None, closestLabel = None, previousElementSibling = None, events = []\<rparr>
     (map (\<lambda>v. \<lparr>opt_value = v, opt_text = v\<rparr>)
        [''0'', ''00'', ''01'', ''02'', ''03'', ''04'', ''05'', ''06'', ''07'', ''08'', ''09'',
         ''10'', ''11'', ''12''])
     = Some ''month''
   \<and> spec_resolvePurpose
     \<lparr>tagName = ''SELECT'', el_type = ''select-one'', el_name = ''f1'', el_id = ''f1'',
      placeholder = '''', ariaLabel = None, el_value = '''', checked = False, options = [],
      labelFor = Inr None, closestLabel = None, previousElementSibling = None, events = []\<rparr>
     (map (\<lambda>v. \<lparr>opt_value = v, opt_text = v\<rparr>)
        [''0'', ''00'', ''01'', ''02'', ''03'', ''04'', ''05'', ''06'', ''07'', ''08'', ''09'',
         ''10'', ''11'', ''12''])
     = None"
proof -
  have "detectSelectPurpose
     \<lparr>tagName = ''SELECT'', el_type = ''select-one'', el_name = ''f1'', el_id = ''f1'',
      placeholder = '''', ariaLabel = None, el_value = '''', checked = False, options = [],
      labelFor = Inr None, closestLabel = None, previousElementSibling = None, events = []\<rparr>
     (map (\<lambda>v. \<lparr>opt_value = v, opt_text = v\<rparr>)
        [''0'', ''00'', ''01'', ''02'', ''03'', ''04'', ''05'', ''06'', ''07'', ''08'', ''09'',
         ''10'', ''11'', ''12''])
     = Some ''month''"
    by code_simp
  moreover have "spec_resolvePurpose
     \<lparr>tagName = ''SELECT'', el_type = ''select-one'', el_name = ''f1'', el_id = ''f1'',
      placeholder = '''', ariaLabel = None, el_value = '''', checked = False, options = [],
      labelFor = Inr None, closestLabel = None, previousElementSibling = None, events = []\<rparr>
     (map (\<lambda>v. \<lparr>opt_value = v, opt_text = v\<rparr>)
        [''0'', ''00'', ''01'', ''02'', ''03'', ''04'', ''05'', ''06'', ''07'', ''08'', ''09'',
         ''10'', ''11'', ''12''])
     = None"
    by code_simp
  ultimately show ?thesis by simp
qed

lemma detectSelectPurpose_text_behind_value:
  "detectSelectPurpose
     \<lparr>tagName = ''SELECT'', el_type = ''select-one'', el_name = ''f1'', el_id = ''f1'',
      placeholder = '''', ariaLabel = None, el_value = '''', checked = False, options = [],
      labelFor = Inr None, closestLabel = None, previousElementSibling = None, events = []\<rparr>
     [\<lparr>opt_value = ''m1'', opt_text = ''January''\<rparr>, \<lparr>opt_value = ''m2'', opt_text = ''February''\<rparr>]
     = None
   \<and> spec_resolvePurpose
     \<lparr>tagName = ''SELECT'', el_type = ''select-one'', el_name = ''f1'', el_id = ''f1'',
      placeholder = '''', ariaLabel = None, el_value = '''', checked = False, options = [],
      labelFor = Inr None, closestLabel = None, previousElementSibling = None, events = []\<rparr>
     [\<lparr>opt_value = ''m1'', opt_text = ''January''\<rparr>, \<lparr>opt_value = ''m2'', opt_text = ''February''\<rparr>]
     = Some ''month''"
proof -
  have "detectSelectPurpose
     \<lparr>tagName = ''SELECT'', el_type = ''select-one'', el_name = ''f1'', el_id = ''f1'',
      placeholder = '''', ariaLabel = None, el_value = '''', checked = False, options = [],
      labelFor = Inr None, closestLabel = None, previousElementSibling = None, events = []\<rparr>
     [\<lparr>opt_value = ''m1'', opt_text = ''January''\<rparr>, \<lparr>opt_value = ''m2'', opt_text = ''February''\<rparr>]
     = None"
    by code_simp
  moreover have "spec_resolvePurpose
     \<lparr>tagName = ''SELECT'', el_type = ''select-one'', el_name = ''f1'', el_id = ''f1'',
      placeholder = '''', ariaLabel = None, el_value = '''', checked = False, options = [],
      labelFor = Inr None, closestLabel = None, previousElementSibling = None, events = []\<rparr>
     [\<lparr>opt_value = ''m1'', opt_text = ''January''\<rparr>, \<lparr>opt_value = ''m2'', opt_text = ''February''\<rparr>]
     = Some ''month''"
    by code_simp
  ultimately show ?thesis by simp
qed

text \<open>
  The events that \<open>fillField\<close> dispatches on each path.
\<close>

lemma events_select_option: "events (select_option P el) = events el"
  by (simp add: select_option_def split: option.splits)

lemma fillField_events:
  "events (fillField el v ftype) =
     events el @
     (if tagName el = ''SELECT'' \<and> (ftype = Some ''date_of_birth'' \<or> isDateRelatedSelect el)
         \<and> parseDate v \<noteq> None
      then [Event ''change'' True]
      else [Event ''input'' True, Event ''change'' True])"
  by (auto simp: fillField_def fill_date_select_def dispatchEvent_def Let_def
        events_select_option split: option.splits)

text \<open>
  Claim C5 fails on the code: on a date-related select and a value that parses as a date,
  \<open>fillField\<close> dispatches the change event and returns; no input event is dispatched.
  Every other path, the one of a select that is not date-related included, dispatches
  both.
\<close>

theorem fillField_date_select_no_input_event:
  "events (fillField
     \<lparr>tagName = ''SELECT'', el_type = ''select-one'', el_name = ''dob_day'', el_id = '''',
      placeholder = '''', ariaLabel = None, el_value = '''', checked = False,
      options = [\<lparr>opt_value = ''14'', opt_text = ''14''\<rparr>, \<lparr>opt_value = ''15'', opt_text = ''15''\<rparr>],
      labelFor = Inr None, closestLabel = None, previousElementSibling = None, events = []\<rparr>
     ''15/08/1995'' (Some ''date_of_birth''))
   = [Event ''change'' True]"
  by code_simp

end
